theory Spec2Isabelle
  imports Main "HOL-Library.Word"
begin

section \<open>Go values used by the miner state adapter\<close>

text \<open>
  \<open>abi.SectorNumber\<close> is a \<open>uint64\<close>, \<open>abi.ChainEpoch\<close> an \<open>int64\<close>: both are 64-bit
  words, read with \<open>unat\<close> and with \<open>sint\<close>. The persistent arrays are keyed by
  \<open>uint64\<close> and hand their keys to callbacks as \<open>int64(k)\<close>; the conversions
  \<open>int64(k)\<close>, \<open>uint64(i)\<close> and \<open>abi.ChainEpoch(epoch)\<close> keep the 64 bits, so on words
  they are the identity.
\<close>

type_synonym uint64 = "64 word"
type_synonym int64 = "64 word"
type_synonym SectorNumber = uint64
type_synonym ChainEpoch = int64

text \<open>
  Errors of the collaborators (store, arrays, bit fields). \<open>Errorf\<close> is
  \<open>xerrors.Errorf("...: %w", err)\<close>: a message wrapped around a cause.
\<close>

datatype error = Err string | Errorf string error

text \<open>
  A value of Go's \<open>error\<close> interface inside \<open>GetSectorExpiration\<close> and inside callbacks:
  either the sentinel \<open>stopErr\<close>, which \<open>errors.New("stop")\<close> allocates afresh on every
  call and which is compared by identity, or an error raised by somebody else. A
  collaborator cannot return the sentinel (it never sees the pointer), so collaborators
  return \<open>error\<close> and their errors enter a callback's result through \<open>Raised\<close>.
  \<open>None\<close> is \<open>nil\<close>.
\<close>

datatype go_error = stopErr | Raised error

text \<open>\<open>cid.Cid\<close>: a content identifier, compared with \<open>Equals\<close>.\<close>

datatype Cid = Cid string

definition Equals :: "Cid \<Rightarrow> Cid \<Rightarrow> bool" where
  "Equals c d = (c = d)"

subsection \<open>Bit fields\<close>

text \<open>
  \<open>bitfield.BitField\<close>: a set of \<open>uint64\<close>, stored run-length encoded. \<open>IsSet\<close> returns
  \<open>(bool, error)\<close>; it fails, with \<open>false\<close>, when the encoding cannot be read.
\<close>

datatype BitField = Bits "uint64 list" | Undecodable error

fun IsSet :: "BitField \<Rightarrow> uint64 \<Rightarrow> bool \<times> error option" where
  "IsSet (Bits xs) i = (i \<in> set xs, None)"
| "IsSet (Undecodable e) i = (False, Some e)"

subsection \<open>Persistent arrays\<close>

text \<open>
  \<open>adt.Array\<close> (and the map of precommitments, keyed by sector number): the entries in the
  order in which \<open>ForEach\<close> walks them, which for the underlying tree is ascending key
  order. An entry \<open>(k, Inl e)\<close> is one whose node cannot be loaded or whose bytes cannot
  be decoded: reaching it fails with \<open>e\<close>.

  \<open>Get(idx, v)\<close> returns \<open>(found, err)\<close> and fills \<open>v\<close>; the model returns the value
  in front of the pair. \<open>ForEach(v, fn)\<close> decodes each entry into \<open>v\<close> and calls
  \<open>fn(int64(k))\<close>, stopping at the first error, its own or the callback's. The callback
  reads \<open>v\<close> and updates variables it has captured: the model passes it the value and
  the captured state \<open>'s\<close>.
\<close>

type_synonym 'v Array = "(uint64 \<times> (error + 'v)) list"

fun Array_Get :: "'v Array \<Rightarrow> uint64 \<Rightarrow> 'v option \<times> bool \<times> error option" where
  "Array_Get [] idx = (None, False, None)"
| "Array_Get ((k, r) # rest) idx =
     (if k = idx
      then (case r of Inl e \<Rightarrow> (None, False, Some e) | Inr v \<Rightarrow> (Some v, True, None))
      else Array_Get rest idx)"

fun Array_ForEach ::
  "'v Array \<Rightarrow> (int64 \<Rightarrow> 'v \<Rightarrow> 's \<Rightarrow> go_error option \<times> 's) \<Rightarrow> 's \<Rightarrow> go_error option \<times> 's"
where
  "Array_ForEach [] fn s = (None, s)"
| "Array_ForEach ((k, Inl e) # rest) fn s = (Some (Raised e), s)"
| "Array_ForEach ((k, Inr v) # rest) fn s =
     (case fn k v s of
        (None, s') \<Rightarrow> Array_ForEach rest fn s'
      | (Some err, s') \<Rightarrow> (Some err, s'))"

section \<open>The version 0 miner state\<close>

record ExpirationSet =
  OnTimeSectors :: BitField
  EarlySectors :: BitField

text \<open>
  \<open>ExpirationsEpochs\<close> is the root of the partition's expiration queue; the field holds
  what \<open>LoadExpirationQueue\<close> makes of it: an error, or the array from quantized epoch to
  expiration set. The quantization spec that \<open>LoadExpirationQueue\<close> also takes is used
  by the queue's write operations only and is left out.
\<close>

record Partition =
  Sectors :: BitField
  Faults :: BitField
  Recoveries :: BitField
  Terminated :: BitField
  ExpirationsEpochs :: "error + ExpirationSet Array"

text \<open>\<open>Partitions\<close> holds what \<open>PartitionsArray\<close> makes of the deadline's root.\<close>

record Deadline =
  Partitions :: "error + Partition Array"
  PostSubmissions :: BitField

text \<open>\<open>Due\<close>: one slot per deadline index, each what \<open>LoadDeadline\<close> returns for it.\<close>

record Deadlines =
  Due :: "(error + Deadline) list"

record SectorOnChainInfo =
  SectorNumber :: SectorNumber
  Activation :: ChainEpoch
  Expiration :: ChainEpoch

record SectorPreCommitOnChainInfo =
  PreCommitSector :: SectorNumber
  PreCommitEpoch :: ChainEpoch

text \<open>
  \<open>state0\<close>: the state together with its store. Every field that the code resolves
  through the store holds the outcome of that resolution: \<open>LoadDeadlines\<close> is the result
  of \<open>s.State.LoadDeadlines(s.store)\<close>, \<open>st_Sectors\<close> of \<open>AsArray(s.store, s.State.Sectors)\<close>,
  \<open>PreCommittedSectors\<close> of \<open>AsMap(s.store, s.State.PreCommittedSectors)\<close> and
  \<open>AllocatedSectors\<close> of \<open>s.store.Get(ctx, s.State.AllocatedSectors, &bf)\<close>.
  \<open>st_Deadlines\<close> is the root \<open>s.State.Deadlines\<close> itself.
\<close>

record state0 =
  st_Deadlines :: Cid
  LoadDeadlines :: "error + Deadlines"
  st_Sectors :: "error + SectorOnChainInfo Array"
  PreCommittedSectors :: "error + SectorPreCommitOnChainInfo Array"
  AllocatedSectors :: "error + BitField"

text \<open>
  The interface \<open>State\<close>: a version 0 state, or the state of a later schema version
  (of which only the version matters here).
\<close>

datatype State = State0 state0 | StateV nat

record SectorExpiration =
  OnTime :: ChainEpoch
  Early :: ChainEpoch

section \<open>Sector lookups\<close>

text \<open>
  The collaborator's \<open>State.GetSector(store, num)\<close>, returning \<open>(info, ok, err)\<close>: it loads
  the sectors array and looks the number up.
\<close>

definition State_GetSector ::
  "state0 \<Rightarrow> SectorNumber \<Rightarrow> SectorOnChainInfo option \<times> bool \<times> error option" where
  "State_GetSector s num =
     (case st_Sectors s of
        Inl e \<Rightarrow> (None, False, Some e)
      | Inr a \<Rightarrow> Array_Get a num)"

definition State_GetPrecommittedSector ::
  "state0 \<Rightarrow> SectorNumber \<Rightarrow> SectorPreCommitOnChainInfo option \<times> bool \<times> error option" where
  "State_GetPrecommittedSector s num =
     (case PreCommittedSectors s of
        Inl e \<Rightarrow> (None, False, Some e)
      | Inr a \<Rightarrow> Array_Get a num)"

definition fromV0SectorOnChainInfo :: "SectorOnChainInfo \<Rightarrow> SectorOnChainInfo" where
  "fromV0SectorOnChainInfo v0 = v0"

definition fromV0SectorPreCommitOnChainInfo ::
  "SectorPreCommitOnChainInfo \<Rightarrow> SectorPreCommitOnChainInfo" where
  "fromV0SectorPreCommitOnChainInfo v0 = v0"

text \<open>
  \<open>GetSector\<close> and \<open>GetPrecommittedSector\<close> return \<open>(pointer, error)\<close>. The guard is
  \<open>!ok || err != nil\<close>; behind it \<open>info\<close> is dereferenced, which for a \<open>nil\<close> pointer
  is a panic: \<open>None\<close> for the whole call.
\<close>

definition GetSector ::
  "state0 \<Rightarrow> SectorNumber \<Rightarrow> (SectorOnChainInfo option \<times> error option) option" where
  "GetSector s num =
     (case State_GetSector s num of
        (info, ok, err) \<Rightarrow>
          if \<not> ok \<or> err \<noteq> None then Some (None, err)
          else (case info of
                  None \<Rightarrow> None
                | Some i \<Rightarrow> Some (Some (fromV0SectorOnChainInfo i), None)))"

definition GetPrecommittedSector ::
  "state0 \<Rightarrow> SectorNumber \<Rightarrow> (SectorPreCommitOnChainInfo option \<times> error option) option" where
  "GetPrecommittedSector s num =
     (case State_GetPrecommittedSector s num of
        (info, ok, err) \<Rightarrow>
          if \<not> ok \<or> err \<noteq> None then Some (None, err)
          else (case info of
                  None \<Rightarrow> None
                | Some i \<Rightarrow> Some (Some (fromV0SectorPreCommitOnChainInfo i), None)))"

definition IsAllocated :: "state0 \<Rightarrow> SectorNumber \<Rightarrow> bool \<times> error option" where
  "IsAllocated s num =
     (case AllocatedSectors s of
        Inl err \<Rightarrow> (False, Some err)
      | Inr allocatedSectors \<Rightarrow> IsSet allocatedSectors num)"

definition DeadlinesChanged :: "state0 \<Rightarrow> State \<Rightarrow> bool" where
  "DeadlinesChanged s other =
     (case other of
        State0 other0 \<Rightarrow> Equals (st_Deadlines s) (st_Deadlines other0)
      | StateV v \<Rightarrow> True)"

section \<open>The expiration of a sector\<close>

text \<open>
  The three nested callbacks of \<open>GetSectorExpiration\<close>, innermost first. Each returns the
  callback's error and the captured variable \<open>out\<close>.
\<close>

definition queueCb ::
  "SectorNumber \<Rightarrow> int64 \<Rightarrow> ExpirationSet \<Rightarrow> SectorExpiration
     \<Rightarrow> go_error option \<times> SectorExpiration" where
  "queueCb num epoch exp out =
     (case IsSet (EarlySectors exp) num of
        (early, Some err) \<Rightarrow> (Some (Raised err), out)
      | (early, None) \<Rightarrow>
          if early then (None, out\<lparr>Early := epoch\<rparr>)
          else (case IsSet (OnTimeSectors exp) num of
                  (onTime, Some err) \<Rightarrow> (Some (Raised err), out)
                | (onTime, None) \<Rightarrow>
                    if onTime then (Some stopErr, out\<lparr>OnTime := epoch\<rparr>)
                    else (None, out)))"

definition partitionCb ::
  "SectorNumber \<Rightarrow> int64 \<Rightarrow> Partition \<Rightarrow> SectorExpiration
     \<Rightarrow> go_error option \<times> SectorExpiration" where
  "partitionCb num partIdx part out =
     (case IsSet (Sectors part) num of
        (found, Some err) \<Rightarrow> (Some (Raised err), out)
      | (found, None) \<Rightarrow>
          if \<not> found then (None, out)
          else (case IsSet (Terminated part) num of
                  (found', Some err) \<Rightarrow> (Some (Raised err), out)
                | (found', None) \<Rightarrow>
                    if found' then (Some stopErr, out)
                    else (case ExpirationsEpochs part of
                            Inl err \<Rightarrow> (Some (Raised err), out)
                          | Inr q \<Rightarrow> Array_ForEach q (queueCb num) out)))"

definition deadlineCb ::
  "SectorNumber \<Rightarrow> uint64 \<Rightarrow> Deadline \<Rightarrow> SectorExpiration
     \<Rightarrow> go_error option \<times> SectorExpiration" where
  "deadlineCb num dlIdx dl out =
     (case Partitions dl of
        Inl err \<Rightarrow> (Some (Raised err), out)
      | Inr partitions \<Rightarrow> Array_ForEach partitions (partitionCb num) out)"

text \<open>
  \<open>Deadlines.ForEach\<close>: for each deadline index, load the deadline and call the callback,
  returning at the first error of either.
\<close>

fun Due_loop ::
  "uint64 \<Rightarrow> (error + Deadline) list \<Rightarrow> (uint64 \<Rightarrow> Deadline \<Rightarrow> 's \<Rightarrow> go_error option \<times> 's)
     \<Rightarrow> 's \<Rightarrow> go_error option \<times> 's" where
  "Due_loop dlIdx [] cb s = (None, s)"
| "Due_loop dlIdx (Inl err # rest) cb s = (Some (Raised err), s)"
| "Due_loop dlIdx (Inr dl # rest) cb s =
     (case cb dlIdx dl s of
        (None, s') \<Rightarrow> Due_loop (dlIdx + 1) rest cb s'
      | (Some err, s') \<Rightarrow> (Some err, s'))"

definition Deadlines_ForEach ::
  "Deadlines \<Rightarrow> (uint64 \<Rightarrow> Deadline \<Rightarrow> 's \<Rightarrow> go_error option \<times> 's) \<Rightarrow> 's
     \<Rightarrow> go_error option \<times> 's" where
  "Deadlines_ForEach d cb s = Due_loop 0 (Due d) cb s"

text \<open>
  The lines of \<open>GetSectorExpiration\<close> that follow the traversal, applied to its error
  and to \<open>out\<close>: the sentinel becomes \<open>nil\<close>, any other error is returned with a \<open>nil\<close>
  result, and two zero epochs are reported as \<open>nil, nil\<close>.
\<close>

definition finish ::
  "go_error option \<times> SectorExpiration \<Rightarrow> SectorExpiration option \<times> go_error option" where
  "finish r =
     (case r of (err, out) \<Rightarrow>
        (let err' = (if err = Some stopErr then None else err) in
         if err' \<noteq> None then (None, err')
         else if Early out = 0 \<and> OnTime out = 0 then (None, None)
         else (Some out, None)))"

definition GetSectorExpiration ::
  "state0 \<Rightarrow> SectorNumber \<Rightarrow> SectorExpiration option \<times> go_error option" where
  "GetSectorExpiration s num =
     (case LoadDeadlines s of
        Inl err \<Rightarrow> (None, Some (Raised err))
      | Inr dls \<Rightarrow>
          finish (Deadlines_ForEach dls (deadlineCb num) \<lparr>OnTime = 0, Early = 0\<rparr>))"

section \<open>Filtered views of the sectors array\<close>

text \<open>
  The closure \<open>incl\<close> of \<open>LoadSectorsFromSet\<close>. The parameter \<open>filter\<close> is a pointer
  (\<open>None\<close> is \<open>nil\<close>).
\<close>

definition incl :: "BitField option \<Rightarrow> bool \<Rightarrow> uint64 \<Rightarrow> bool \<times> error option" where
  "incl filter' filterOut i =
     (case filter' of
        None \<Rightarrow> (True, None)
      | Some f \<Rightarrow>
          (case IsSet f i of
             (set', Some err) \<Rightarrow> (False, Some (Errorf ''filter check error'' err))
           | (set', None) \<Rightarrow> (if set' = filterOut then False else True, None)))"

text \<open>\<open>adt.ProxyArray\<close>: an array given by its two functions.\<close>

record ('v, 's) ProxyArray =
  GetFunc :: "uint64 \<Rightarrow> 'v option \<times> bool \<times> error option"
  ForEachFunc ::
    "(int64 \<Rightarrow> 'v \<Rightarrow> 's \<Rightarrow> go_error option \<times> 's) \<Rightarrow> 's \<Rightarrow> go_error option \<times> 's"

definition LoadSectorsFromSet ::
  "state0 \<Rightarrow> BitField option \<Rightarrow> bool
     \<Rightarrow> (SectorOnChainInfo, 's) ProxyArray option \<times> error option" where
  "LoadSectorsFromSet s filter' filterOut =
     (case st_Sectors s of
        Inl err \<Rightarrow> (None, Some err)
      | Inr a \<Rightarrow>
          (Some \<lparr>GetFunc = (\<lambda>idx.
                    case incl filter' filterOut idx of
                      (i, Some err) \<Rightarrow> (None, False, Some err)
                    | (i, None) \<Rightarrow>
                        if \<not> i then (None, False, None) else Array_Get a idx),
                 ForEachFunc = (\<lambda>fn.
                    Array_ForEach a (\<lambda>i v st.
                      case incl filter' filterOut i of
                        (include, Some err) \<Rightarrow> (Some (Raised err), st)
                      | (include, None) \<Rightarrow>
                          if \<not> include then (None, st) else fn i v st))\<rparr>,
           None))"

section \<open>Notions used to state the properties\<close>

text \<open>A callback that only notes the index it is called with, and never stops.\<close>

definition visit :: "int64 \<Rightarrow> 'v \<Rightarrow> int64 list \<Rightarrow> go_error option \<times> int64 list" where
  "visit i v seen = (None, seen @ [i])"

text \<open>
  The sector is in no partition: every deadline and every partition of the state can be
  read, and no partition's \<open>Sectors\<close> holds the number.
\<close>

definition not_in_partitions :: "SectorNumber \<Rightarrow> Partition Array \<Rightarrow> bool" where
  "not_in_partitions num ps =
     list_all (\<lambda>(k, r). case r of Inl e \<Rightarrow> False
                        | Inr p \<Rightarrow> IsSet (Sectors p) num = (False, None)) ps"

definition in_no_partition :: "state0 \<Rightarrow> SectorNumber \<Rightarrow> bool" where
  "in_no_partition s num =
     (case LoadDeadlines s of
        Inl e \<Rightarrow> False
      | Inr d \<Rightarrow>
          list_all (\<lambda>x. case x of Inl e \<Rightarrow> False
                     | Inr dl \<Rightarrow> (case Partitions dl of Inl e \<Rightarrow> False
                                 | Inr ps \<Rightarrow> not_in_partitions num ps)) (Due d))"

text \<open>
  The same for a run of deadlines: each can be loaded, its partitions can be read, and
  none of them holds the number.
\<close>

definition not_in_deadlines :: "SectorNumber \<Rightarrow> (error + Deadline) list \<Rightarrow> bool" where
  "not_in_deadlines num ds =
     list_all (\<lambda>x. case x of Inl e \<Rightarrow> False
                | Inr dl \<Rightarrow> (case Partitions dl of Inl e \<Rightarrow> False
                            | Inr ps \<Rightarrow> not_in_partitions num ps)) ds"

text \<open>
  The records of one sector are at epoch 0: in every partition that holds the sector and
  has not terminated it, every expiration set that holds the sector, early or on time, is
  keyed at epoch 0. Nothing is asked of the records of other sectors, nor of partitions
  where the queue is not scanned for this sector.
\<close>

definition set_holds :: "SectorNumber \<Rightarrow> ExpirationSet \<Rightarrow> bool" where
  "set_holds num exp =
     (fst (IsSet (EarlySectors exp) num) \<or> fst (IsSet (OnTimeSectors exp) num))"

definition queue_at_zero :: "SectorNumber \<Rightarrow> error + ExpirationSet Array \<Rightarrow> bool" where
  "queue_at_zero num lq =
     (case lq of Inl e \<Rightarrow> True
      | Inr q \<Rightarrow> list_all (\<lambda>(k, r). case r of Inl e \<Rightarrow> True
                            | Inr exp \<Rightarrow> set_holds num exp \<longrightarrow> k = 0) q)"

definition partitions_at_zero :: "SectorNumber \<Rightarrow> error + Partition Array \<Rightarrow> bool" where
  "partitions_at_zero num lps =
     (case lps of Inl e \<Rightarrow> True
      | Inr ps \<Rightarrow>
          list_all (\<lambda>(k, r). case r of Inl e \<Rightarrow> True
                     | Inr p \<Rightarrow>
                         fst (IsSet (Sectors p) num) \<and> \<not> fst (IsSet (Terminated p) num)
                           \<longrightarrow> queue_at_zero num (ExpirationsEpochs p)) ps)"

definition records_at_zero :: "state0 \<Rightarrow> SectorNumber \<Rightarrow> bool" where
  "records_at_zero s num =
     (case LoadDeadlines s of
        Inl e \<Rightarrow> True
      | Inr d \<Rightarrow> list_all (\<lambda>x. case x of Inl e \<Rightarrow> True
                            | Inr dl \<Rightarrow> partitions_at_zero num (Partitions dl)) (Due d))"

definition zeroed :: "SectorExpiration \<Rightarrow> bool" where
  "zeroed out = (Early out = 0 \<and> OnTime out = 0)"

text \<open>
  The inclusion predicate of a filtered view as the specification words it: with no
  filter every index is included; with the polarity flag off an index is included if it
  is set in the filter, with the flag on if it is not set. The filter is given by its
  members.
\<close>

definition view_includes :: "uint64 list option \<Rightarrow> bool \<Rightarrow> uint64 \<Rightarrow> bool" where
  "view_includes members filterOut i =
     (case members of
        None \<Rightarrow> True
      | Some xs \<Rightarrow> (if filterOut then i \<notin> set xs else i \<in> set xs))"

text \<open>
  A collaborator raises \<open>e\<close> during \<open>GetSectorExpiration s num\<close>. The predicates name
  every place where the store, an array or a bit field can fail, by the data that makes
  it fail, and what has to have gone well before for the query to get there.

  An expiration set that the queue scan reaches fails when it cannot be decoded, when
  \<open>EarlySectors\<close> cannot be read, or, the sector not being early, when \<open>OnTimeSectors\<close>
  cannot be read.
\<close>

inductive set_fails :: "SectorNumber \<Rightarrow> error + ExpirationSet \<Rightarrow> error \<Rightarrow> bool"
  for num :: SectorNumber where
  set_undecodable: "set_fails num (Inl e) e"
| early_unreadable:
    "IsSet (EarlySectors exp) num = (b, Some e) \<Longrightarrow> set_fails num (Inr exp) e"
| onTime_unreadable:
    "IsSet (EarlySectors exp) num = (False, None) \<Longrightarrow>
     IsSet (OnTimeSectors exp) num = (b, Some e) \<Longrightarrow> set_fails num (Inr exp) e"

text \<open>
  A partition that the scan reaches with \<open>out\<close> fails when it cannot be decoded, when
  \<open>Sectors\<close> cannot be read, or, the sector being in \<open>Sectors\<close>, when \<open>Terminated\<close> cannot
  be read, or, the sector not being terminated, when the expiration queue cannot be
  loaded or an expiration set fails after the sets before it were scanned without error
  and without stopping.
\<close>

inductive partition_fails ::
  "SectorNumber \<Rightarrow> error + Partition \<Rightarrow> SectorExpiration \<Rightarrow> error \<Rightarrow> bool"
  for num :: SectorNumber where
  partition_undecodable: "partition_fails num (Inl e) out e"
| sectors_unreadable:
    "IsSet (Sectors p) num = (b, Some e) \<Longrightarrow> partition_fails num (Inr p) out e"
| terminated_unreadable:
    "IsSet (Sectors p) num = (True, None) \<Longrightarrow>
     IsSet (Terminated p) num = (b, Some e) \<Longrightarrow> partition_fails num (Inr p) out e"
| queue_unloadable:
    "IsSet (Sectors p) num = (True, None) \<Longrightarrow>
     IsSet (Terminated p) num = (False, None) \<Longrightarrow>
     ExpirationsEpochs p = Inl e \<Longrightarrow> partition_fails num (Inr p) out e"
| set_failed:
    "IsSet (Sectors p) num = (True, None) \<Longrightarrow>
     IsSet (Terminated p) num = (False, None) \<Longrightarrow>
     ExpirationsEpochs p = Inr (qpre @ (k, z) # qpost) \<Longrightarrow>
     Array_ForEach qpre (queueCb num) out = (None, out') \<Longrightarrow>
     set_fails num z e \<Longrightarrow> partition_fails num (Inr p) out e"

text \<open>
  A deadline fails when it cannot be loaded, when its partitions array cannot be loaded,
  or when a partition fails after the partitions before it were passed without error and
  without stopping.
\<close>

inductive deadline_fails ::
  "SectorNumber \<Rightarrow> error + Deadline \<Rightarrow> SectorExpiration \<Rightarrow> error \<Rightarrow> bool"
  for num :: SectorNumber where
  deadline_unloadable: "deadline_fails num (Inl e) out e"
| partitions_unloadable:
    "Partitions dl = Inl e \<Longrightarrow> deadline_fails num (Inr dl) out e"
| partition_failed:
    "Partitions dl = Inr (ppre @ (k, y) # ppost) \<Longrightarrow>
     Array_ForEach ppre (partitionCb num) out = (None, out') \<Longrightarrow>
     partition_fails num y out' e \<Longrightarrow> deadline_fails num (Inr dl) out e"

inductive raised :: "state0 \<Rightarrow> SectorNumber \<Rightarrow> error \<Rightarrow> bool" where
  deadlines_unloadable: "LoadDeadlines s = Inl e \<Longrightarrow> raised s num e"
| deadline_failed:
    "LoadDeadlines s = Inr d \<Longrightarrow>
     Due d = dpre @ x # dpost \<Longrightarrow>
     Due_loop 0 dpre (deadlineCb num) \<lparr>OnTime = 0, Early = 0\<rparr> = (None, out) \<Longrightarrow>
     deadline_fails num x out e \<Longrightarrow> raised s num e"

section \<open>Example states\<close>

definition expiration_set :: "uint64 list \<Rightarrow> uint64 list \<Rightarrow> ExpirationSet" where
  "expiration_set onTime early = \<lparr>OnTimeSectors = Bits onTime, EarlySectors = Bits early\<rparr>"

definition partition_of ::
  "uint64 list \<Rightarrow> uint64 list \<Rightarrow> ExpirationSet Array \<Rightarrow> Partition" where
  "partition_of sectors terminated queue =
     \<lparr>Sectors = Bits sectors, Faults = Bits [], Recoveries = Bits [],
      Terminated = Bits terminated, ExpirationsEpochs = Inr queue\<rparr>"

definition deadline_of :: "Partition Array \<Rightarrow> Deadline" where
  "deadline_of ps = \<lparr>Partitions = Inr ps, PostSubmissions = Bits []\<rparr>"

definition info_of :: "SectorNumber \<Rightarrow> SectorOnChainInfo" where
  "info_of n = \<lparr>SectorNumber = n, Activation = 10, Expiration = 1000\<rparr>"

definition state_of :: "(error + Deadline) list \<Rightarrow> state0" where
  "state_of due =
     \<lparr>st_Deadlines = Cid ''deadlines-a'',
      LoadDeadlines = Inr \<lparr>Due = due\<rparr>,
      st_Sectors = Inr [(1, Inr (info_of 1)), (2, Inr (info_of 2)), (3, Inr (info_of 3)),
                        (5, Inr (info_of 5))],
      PreCommittedSectors = Inr [(6, Inr \<lparr>PreCommitSector = 6, PreCommitEpoch = 20\<rparr>)],
      AllocatedSectors = Inr (Bits [1, 2, 3, 5, 6])\<rparr>"

text \<open>
  Sector 5 lives in partition 2 of deadline 0 only, with one on-time record at epoch 1000.
  Deadline 1 cannot be loaded.
\<close>

definition home_partition :: Partition where
  "home_partition = partition_of [5] [] [(1000, Inr (expiration_set [5] []))]"

definition first_deadline :: Deadline where
  "first_deadline =
     deadline_of [(0, Inr (partition_of [1, 2] [] [(900, Inr (expiration_set [1, 2] []))])),
                  (1, Inr (partition_of [3] [] [])),
                  (2, Inr home_partition)]"

definition scenario1 :: state0 where
  "scenario1 = state_of [Inr first_deadline, Inl (Err ''deadline 1 unreadable'')]"

text \<open>The same deadline, followed by an empty one: every part of the state can be read.\<close>

definition scenario4 :: state0 where
  "scenario4 = state_of [Inr first_deadline, Inr (deadline_of [])]"

text \<open>
  Sector 7 is in both bit fields of the expiration set at epoch 800; the set at epoch
  1200 holds it on time.
\<close>

definition both_set :: ExpirationSet where
  "both_set = expiration_set [7] [7]"

definition both_states :: state0 where
  "both_states = state_of [Inr (deadline_of [(0, Inr (partition_of [7] [] [(800, Inr both_set)]))])]"

text \<open>
  Sector 9 is terminated in partition 1, which still holds a record for it; partition 2
  cannot be decoded and deadline 1 cannot be loaded.
\<close>

definition terminated_partition :: Partition where
  "terminated_partition = partition_of [9] [9] [(1200, Inr (expiration_set [9] []))]"

definition scenario3 :: state0 where
  "scenario3 =
     state_of [Inr (deadline_of [(0, Inr (partition_of [1] [] [(900, Inr (expiration_set [1] []))])),
                                 (1, Inr terminated_partition),
                                 (2, Inl (Err ''partition 2 undecodable''))]),
               Inl (Err ''deadline 1 unreadable'')]"

text \<open>
  Sector 7 has an early record at epoch 800; in the next expiration set, where it is not
  early, \<open>OnTimeSectors\<close> cannot be read.
\<close>

definition unreadable_onTime :: Partition where
  "unreadable_onTime = partition_of [7] []
     [(800, Inr (expiration_set [] [7])),
      (1200, Inr \<lparr>OnTimeSectors = Undecodable (Err ''bit field unreadable''),
                   EarlySectors = Bits []\<rparr>)]"

definition broken_bitfield :: state0 where
  "broken_bitfield =
     state_of [Inr (deadline_of [(0, Inr (partition_of [1] [] [])), (1, Inr unreadable_onTime)])]"

text \<open>
  Sector 5 has its on-time record at epoch 0; sector 6, in the same partition, has its
  own at epoch 1000.
\<close>

definition zero_partition :: Partition where
  "zero_partition = partition_of [5, 6] []
     [(0, Inr (expiration_set [5] [])), (1000, Inr (expiration_set [6] []))]"

definition epoch_zero :: state0 where
  "epoch_zero = state_of [Inr (deadline_of [(0, Inr zero_partition)])]"

lemmas examples =
  expiration_set_def partition_of_def deadline_of_def info_of_def state_of_def
  home_partition_def first_deadline_def scenario1_def scenario4_def both_set_def
  both_states_def terminated_partition_def scenario3_def unreadable_onTime_def
  broken_bitfield_def zero_partition_def epoch_zero_def

lemmas traversal =
  GetSectorExpiration_def Deadlines_ForEach_def deadlineCb_def partitionCb_def queueCb_def
  finish_def

section \<open>Facts about the traversal\<close>

lemma Array_ForEach_append:
  "Array_ForEach (xs @ ys) fn s =
     (case Array_ForEach xs fn s of
        (None, s') \<Rightarrow> Array_ForEach ys fn s'
      | (Some err, s') \<Rightarrow> (Some err, s'))"
  by (induction xs fn s rule: Array_ForEach.induct) (auto split: prod.splits option.splits)

lemma Due_loop_append:
  "Due_loop i (xs @ ys) cb s =
     (case Due_loop i xs cb s of
        (None, s') \<Rightarrow> Due_loop (i + of_nat (length xs)) ys cb s'
      | (Some err, s') \<Rightarrow> (Some err, s'))"
  by (induction i xs cb s rule: Due_loop.induct)
    (auto split: prod.splits option.splits simp: add.assoc add.commute)

text \<open>The first error ends a scan, whatever follows it.\<close>

lemma Array_ForEach_stops:
  assumes "Array_ForEach pre fn s = (None, s')" and "fn k v s' = (Some err, s'')"
  shows "Array_ForEach (pre @ (k, Inr v) # post) fn s = (Some err, s'')"
  using assms by (simp add: Array_ForEach_append)

lemma Array_ForEach_undecodable:
  assumes "Array_ForEach pre fn s = (None, s')"
  shows "Array_ForEach (pre @ (k, Inl e) # post) fn s = (Some (Raised e), s')"
  using assms by (simp add: Array_ForEach_append)

lemma Due_loop_stops:
  assumes "Due_loop i pre cb s = (None, s')"
    and "cb (i + of_nat (length pre)) dl s' = (Some err, s'')"
  shows "Due_loop i (pre @ Inr dl # post) cb s = (Some err, s'')"
  using assms by (simp add: Due_loop_append)

lemma Due_loop_unreadable:
  assumes "Due_loop i pre cb s = (None, s')"
  shows "Due_loop i (pre @ Inl e # post) cb s = (Some (Raised e), s')"
  using assms by (simp add: Due_loop_append)

lemma reach_partition:
  assumes due: "Due d = dpre @ Inr dl # dpost"
    and dpre: "Due_loop 0 dpre (deadlineCb num) out0 = (None, out1)"
    and parts: "Partitions dl = Inr (ppre @ (k, Inr p) # ppost)"
    and ppre: "Array_ForEach ppre (partitionCb num) out1 = (None, out2)"
    and hit: "partitionCb num k p out2 = (Some err, out3)"
  shows "Deadlines_ForEach d (deadlineCb num) out0 = (Some err, out3)"
proof -
  have "deadlineCb num (0 + of_nat (length dpre)) dl out1 = (Some err, out3)"
    using parts Array_ForEach_stops [OF ppre hit] by (simp add: deadlineCb_def)
  from Due_loop_stops [OF dpre this] show ?thesis
    by (simp add: Deadlines_ForEach_def due)
qed

text \<open>A scan that ends without an error has recorded no on-time epoch.\<close>

lemma queueCb_None_OnTime:
  "queueCb num epoch exp out = (None, out') \<Longrightarrow> OnTime out' = OnTime out"
  by (auto simp: queueCb_def split: prod.splits option.splits if_splits)

lemma queue_scan_None_OnTime:
  "Array_ForEach q (queueCb num) out = (None, out') \<Longrightarrow> OnTime out' = OnTime out"
proof (induction q "queueCb num" out rule: Array_ForEach.induct)
  case (3 k v rest s)
  then show ?case
    by (auto split: prod.splits option.splits dest: queueCb_None_OnTime)
qed simp_all

lemma partitionCb_None_OnTime:
  "partitionCb num i p out = (None, out') \<Longrightarrow> OnTime out' = OnTime out"
  by (auto simp: partitionCb_def split: prod.splits option.splits if_splits sum.splits
      dest: queue_scan_None_OnTime)

lemma partition_scan_None_OnTime:
  "Array_ForEach ps (partitionCb num) out = (None, out') \<Longrightarrow> OnTime out' = OnTime out"
proof (induction ps "partitionCb num" out rule: Array_ForEach.induct)
  case (3 k v rest s)
  then show ?case
    by (auto split: prod.splits option.splits dest: partitionCb_None_OnTime)
qed simp_all

lemma deadlineCb_None_OnTime:
  "deadlineCb num i dl out = (None, out') \<Longrightarrow> OnTime out' = OnTime out"
  by (auto simp: deadlineCb_def split: sum.splits dest: partition_scan_None_OnTime)

lemma Due_loop_None_OnTime:
  "Due_loop i ds (deadlineCb num) out = (None, out') \<Longrightarrow> OnTime out' = OnTime out"
proof (induction i ds "deadlineCb num" out rule: Due_loop.induct)
  case (3 dlIdx dl rest s)
  then show ?case
    by (auto split: prod.splits option.splits dest: deadlineCb_None_OnTime)
qed simp_all

text \<open>What \<open>GetSectorExpiration\<close> makes of the traversal's three outcomes.\<close>

lemma finish_stop:
  "finish (Some stopErr, out) =
     (if Early out = 0 \<and> OnTime out = 0 then None else Some out, None)"
  by (simp add: finish_def)

lemma finish_nil:
  "finish (None, out) =
     (if Early out = 0 \<and> OnTime out = 0 then None else Some out, None)"
  by (simp add: finish_def)

lemma finish_raised: "finish (Some (Raised e), out) = (None, Some (Raised e))"
  by (simp add: finish_def)

lemma finish_never_stop: "snd (finish r) \<noteq> Some stopErr"
  by (cases r) (auto simp: finish_def Let_def)

lemma finish_error_nil: "snd (finish r) \<noteq> None \<Longrightarrow> fst (finish r) = None"
  by (cases r) (auto simp: finish_def Let_def split: if_splits)

text \<open>Partitions that do not hold the sector are passed over.\<close>

lemma Array_Get_absent: "idx \<notin> fst ` set a \<Longrightarrow> Array_Get a idx = (None, False, None)"
  by (induction a) auto

lemma partitions_skipped:
  "not_in_partitions num ps \<Longrightarrow> Array_ForEach ps (partitionCb num) out = (None, out)"
  unfolding not_in_partitions_def
proof (induction ps)
  case (Cons x ps)
  obtain k r where x: "x = (k, r)" by (cases x)
  with Cons.prems obtain p where r: "r = Inr p" and p: "IsSet (Sectors p) num = (False, None)"
    by (cases r) auto
  have "partitionCb num k p out = (None, out)" using p by (simp add: partitionCb_def)
  then show ?case using Cons by (simp add: x r)
qed simp

lemma deadlines_skipped:
  "list_all (\<lambda>x. case x of Inl e \<Rightarrow> False
                     | Inr dl \<Rightarrow> (case Partitions dl of Inl e \<Rightarrow> False
                                 | Inr ps \<Rightarrow> not_in_partitions num ps)) ds
   \<Longrightarrow> Due_loop i ds (deadlineCb num) out = (None, out)"
proof (induction ds arbitrary: i)
  case (Cons x ds)
  from Cons.prems obtain dl ps where x: "x = Inr dl" and ps: "Partitions dl = Inr ps"
    and np: "not_in_partitions num ps"
    by (cases x) (auto split: sum.splits)
  have "deadlineCb num i dl out = (None, out)"
    using partitions_skipped [OF np] by (simp add: deadlineCb_def ps)
  then show ?case using Cons by (simp add: x)
qed simp

text \<open>Records at epoch 0 leave both epochs at 0.\<close>

lemma queueCb_zero:
  assumes "zeroed out" and "set_holds num exp \<longrightarrow> k = 0"
    and "queueCb num k exp out = (r, out')"
  shows "zeroed out'"
  using assms
  by (auto simp: queueCb_def zeroed_def set_holds_def
      split: prod.splits option.splits if_splits)

lemma queue_scan_zero:
  "list_all (\<lambda>(k, r). case r of Inl e \<Rightarrow> True
                         | Inr exp \<Rightarrow> set_holds num exp \<longrightarrow> k = 0) q \<Longrightarrow>
   zeroed out \<Longrightarrow> Array_ForEach q (queueCb num) out = (r, out') \<Longrightarrow> zeroed out'"
proof (induction q arbitrary: out)
  case Nil
  then show ?case by simp
next
  case (Cons x q)
  obtain k z where x: "x = (k, z)" by (cases x)
  show ?case
  proof (cases z)
    case (Inl e)
    with Cons.prems x show ?thesis by simp
  next
    case (Inr exp)
    obtain r1 s1 where cb: "queueCb num k exp out = (r1, s1)"
      by (cases "queueCb num k exp out")
    have h: "set_holds num exp \<longrightarrow> k = 0"
      using Cons.prems(1) x Inr by simp
    have z1: "zeroed s1"
      by (rule queueCb_zero [OF Cons.prems(2) h cb])
    show ?thesis
    proof (cases r1)
      case None
      with Cons.prems x Inr cb have "Array_ForEach q (queueCb num) s1 = (r, out')"
        by simp
      moreover have "list_all (\<lambda>(k, r). case r of Inl e \<Rightarrow> True
                         | Inr exp \<Rightarrow> set_holds num exp \<longrightarrow> k = 0) q"
        using Cons.prems(1) by simp
      ultimately show ?thesis using Cons.IH z1 by blast
    next
      case (Some err)
      with Cons.prems(3) x Inr cb have "out' = s1" by simp
      with z1 show ?thesis by simp
    qed
  qed
qed

lemma partitionCb_zero:
  assumes q: "fst (IsSet (Sectors p) num) \<and> \<not> fst (IsSet (Terminated p) num)
                \<longrightarrow> queue_at_zero num (ExpirationsEpochs p)"
    and z: "zeroed out" and cb: "partitionCb num k p out = (r, out')"
  shows "zeroed out'"
proof -
  obtain f ef where f: "IsSet (Sectors p) num = (f, ef)"
    by (cases "IsSet (Sectors p) num")
  obtain t et where t: "IsSet (Terminated p) num = (t, et)"
    by (cases "IsSet (Terminated p) num")
  show ?thesis
  proof (cases "ef = None \<and> f \<and> et = None \<and> \<not> t")
    case True
    then have qz: "queue_at_zero num (ExpirationsEpochs p)"
      using q f t by simp
    show ?thesis
    proof (cases "ExpirationsEpochs p")
      case (Inl e)
      with True f t cb z show ?thesis by (auto simp: partitionCb_def)
    next
      case (Inr qu)
      with True f t cb have "Array_ForEach qu (queueCb num) out = (r, out')"
        by (simp add: partitionCb_def)
      with qz Inr z show ?thesis
        using queue_scan_zero [of num qu out r out'] by (simp add: queue_at_zero_def)
    qed
  next
    case False
    with f t cb have "out' = out"
      by (auto simp: partitionCb_def split: option.splits if_splits)
    with z show ?thesis by simp
  qed
qed

lemma partition_scan_zero:
  "list_all (\<lambda>(k, r). case r of Inl e \<Rightarrow> True
               | Inr p \<Rightarrow> fst (IsSet (Sectors p) num) \<and> \<not> fst (IsSet (Terminated p) num)
                           \<longrightarrow> queue_at_zero num (ExpirationsEpochs p)) ps \<Longrightarrow>
   zeroed out \<Longrightarrow> Array_ForEach ps (partitionCb num) out = (r, out') \<Longrightarrow> zeroed out'"
proof (induction ps arbitrary: out)
  case Nil
  then show ?case by simp
next
  case (Cons x ps)
  obtain k y where x: "x = (k, y)" by (cases x)
  show ?case
  proof (cases y)
    case (Inl e)
    with Cons.prems x show ?thesis by simp
  next
    case (Inr p)
    obtain r1 s1 where cb: "partitionCb num k p out = (r1, s1)"
      by (cases "partitionCb num k p out")
    have h: "fst (IsSet (Sectors p) num) \<and> \<not> fst (IsSet (Terminated p) num)
                \<longrightarrow> queue_at_zero num (ExpirationsEpochs p)"
      using Cons.prems(1) x Inr by simp
    have z1: "zeroed s1"
      by (rule partitionCb_zero [OF h Cons.prems(2) cb])
    show ?thesis
    proof (cases r1)
      case None
      with Cons.prems x Inr cb have "Array_ForEach ps (partitionCb num) s1 = (r, out')"
        by simp
      moreover have "list_all (\<lambda>(k, r). case r of Inl e \<Rightarrow> True
               | Inr p \<Rightarrow> fst (IsSet (Sectors p) num) \<and> \<not> fst (IsSet (Terminated p) num)
                           \<longrightarrow> queue_at_zero num (ExpirationsEpochs p)) ps"
        using Cons.prems(1) by simp
      ultimately show ?thesis using Cons.IH z1 by blast
    next
      case (Some err)
      with Cons.prems(3) x Inr cb have "out' = s1" by simp
      with z1 show ?thesis by simp
    qed
  qed
qed

lemma deadlineCb_zero:
  assumes "partitions_at_zero num (Partitions dl)" and "zeroed out"
    and "deadlineCb num i dl out = (r, out')"
  shows "zeroed out'"
proof (cases "Partitions dl")
  case (Inl e)
  with assms(2,3) show ?thesis by (auto simp: deadlineCb_def)
next
  case (Inr ps)
  with assms partition_scan_zero [of num ps out r out'] show ?thesis
    by (simp add: deadlineCb_def partitions_at_zero_def)
qed

lemma Due_loop_zero:
  "list_all (\<lambda>x. case x of Inl e \<Rightarrow> True
                            | Inr dl \<Rightarrow> partitions_at_zero num (Partitions dl)) ds \<Longrightarrow>
   zeroed out \<Longrightarrow> Due_loop i ds (deadlineCb num) out = (r, out') \<Longrightarrow> zeroed out'"
proof (induction i ds "deadlineCb num" out rule: Due_loop.induct)
  case (3 dlIdx dl rest s)
  then show ?case
    by (auto split: prod.splits option.splits dest: deadlineCb_zero)
qed auto

lemma finish_zeroed:
  "zeroed out \<Longrightarrow>
   finish (r, out) = (None, None) \<or> (\<exists>e. finish (r, out) = (None, Some (Raised e)))"
  by (cases r; cases "the r") (auto simp: finish_def zeroed_def)

text \<open>A failure of a collaborator is the outcome of the scan that meets it.\<close>

lemma set_fails_queueCb:
  "set_fails num (Inr exp) e \<Longrightarrow> queueCb num k exp out = (Some (Raised e), out)"
  by (erule set_fails.cases) (auto simp: queueCb_def)

lemma set_fails_scan:
  assumes "set_fails num z e" and "Array_ForEach qpre (queueCb num) out = (None, out')"
  shows "Array_ForEach (qpre @ (k, z) # qpost) (queueCb num) out = (Some (Raised e), out')"
proof (cases z)
  case (Inl e')
  with assms(1) have "e' = e" by (auto elim: set_fails.cases)
  with Inl Array_ForEach_undecodable [OF assms(2)] show ?thesis by simp
next
  case (Inr exp)
  with assms(1) have "queueCb num k exp out' = (Some (Raised e), out')"
    by (simp add: set_fails_queueCb)
  with Inr Array_ForEach_stops [OF assms(2)] show ?thesis by simp
qed

lemma partition_fails_cb:
  "partition_fails num (Inr p) out e \<Longrightarrow>
   \<exists>out'. partitionCb num k p out = (Some (Raised e), out')"
  by (erule partition_fails.cases) (auto simp: partitionCb_def set_fails_scan)

lemma partition_fails_scan:
  assumes "partition_fails num y out' e"
    and "Array_ForEach ppre (partitionCb num) out = (None, out')"
  shows "\<exists>out''. Array_ForEach (ppre @ (k, y) # ppost) (partitionCb num) out
                  = (Some (Raised e), out'')"
proof (cases y)
  case (Inl e')
  with assms(1) have "e' = e" by (auto elim: partition_fails.cases)
  with Inl Array_ForEach_undecodable [OF assms(2)] show ?thesis by simp
next
  case (Inr p)
  with assms(1) obtain out'' where "partitionCb num k p out' = (Some (Raised e), out'')"
    using partition_fails_cb by blast
  with Inr Array_ForEach_stops [OF assms(2)] show ?thesis by simp
qed

lemma deadline_fails_cb:
  "deadline_fails num (Inr dl) out e \<Longrightarrow>
   \<exists>out'. deadlineCb num i dl out = (Some (Raised e), out')"
  by (erule deadline_fails.cases) (auto simp: deadlineCb_def dest: partition_fails_scan)

lemma deadline_fails_loop:
  assumes "deadline_fails num x out' e"
    and "Due_loop i dpre (deadlineCb num) out = (None, out')"
  shows "\<exists>out''. Due_loop i (dpre @ x # dpost) (deadlineCb num) out
                  = (Some (Raised e), out'')"
proof (cases x)
  case (Inl e')
  with assms(1) have "e' = e" by (auto elim: deadline_fails.cases)
  with Inl Due_loop_unreadable [OF assms(2)] show ?thesis by simp
next
  case (Inr dl)
  with assms(1) obtain out''
    where "deadlineCb num (i + of_nat (length dpre)) dl out' = (Some (Raised e), out'')"
    using deadline_fails_cb by blast
  with Inr Due_loop_stops [OF assms(2)] show ?thesis by simp
qed

lemma raised_result:
  assumes "raised s num e"
  shows "GetSectorExpiration s num = (None, Some (Raised e))"
  using assms
proof cases
  case deadlines_unloadable
  then show ?thesis by (simp add: GetSectorExpiration_def)
next
  case (deadline_failed d dpre x dpost out)
  from deadline_fails_loop [OF deadline_failed(4) deadline_failed(3), of dpost]
  obtain out'' where "Due_loop 0 (Due d) (deadlineCb num) \<lparr>OnTime = 0, Early = 0\<rparr>
      = (Some (Raised e), out'')"
    using deadline_failed(2) by auto
  then show ?thesis
    by (simp add: GetSectorExpiration_def deadline_failed(1) Deadlines_ForEach_def finish_raised)
qed

text \<open>An error with which a scan ends is a failure of a collaborator, at the first place.\<close>

lemma Array_ForEach_Some:
  "Array_ForEach xs fn s = (Some err, s') \<Longrightarrow>
   \<exists>pre k z post s0. xs = pre @ (k, z) # post \<and> Array_ForEach pre fn s = (None, s0)
      \<and> (case z of Inl e \<Rightarrow> err = Raised e | Inr v \<Rightarrow> fn k v s0 = (Some err, s'))"
proof (induction xs arbitrary: s)
  case Nil
  then show ?case by simp
next
  case (Cons x xs)
  obtain k z where x: "x = (k, z)" by (cases x)
  show ?case
  proof (cases z)
    case (Inl e)
    with Cons.prems x have "err = Raised e" by simp
    then have "x # xs = [] @ (k, z) # xs \<and> Array_ForEach [] fn s = (None, s)
        \<and> (case z of Inl e \<Rightarrow> err = Raised e | Inr v \<Rightarrow> fn k v s = (Some err, s'))"
      using x Inl by simp
    then show ?thesis by blast
  next
    case (Inr v)
    obtain r1 s1 where cb: "fn k v s = (r1, s1)" by (cases "fn k v s")
    show ?thesis
    proof (cases r1)
      case None
      with Cons.prems x Inr cb have "Array_ForEach xs fn s1 = (Some err, s')" by simp
      from Cons.IH [OF this] obtain pre k' z' post s0
        where d: "xs = pre @ (k', z') # post" and p: "Array_ForEach pre fn s1 = (None, s0)"
          and h: "case z' of Inl e \<Rightarrow> err = Raised e | Inr v \<Rightarrow> fn k' v s0 = (Some err, s')"
        by blast
      have "x # xs = (x # pre) @ (k', z') # post" using d by simp
      moreover have "Array_ForEach (x # pre) fn s = (None, s0)"
        using x Inr cb None p by simp
      ultimately show ?thesis using h by blast
    next
      case (Some err')
      with Cons.prems x Inr cb have "fn k v s = (Some err, s')" by simp
      then have "x # xs = [] @ (k, z) # xs \<and> Array_ForEach [] fn s = (None, s)
        \<and> (case z of Inl e \<Rightarrow> err = Raised e | Inr v \<Rightarrow> fn k v s = (Some err, s'))"
        using x Inr by simp
      then show ?thesis by blast
    qed
  qed
qed

lemma Due_loop_Some:
  "Due_loop i xs cb s = (Some err, s') \<Longrightarrow>
   \<exists>pre x post s0. xs = pre @ x # post \<and> Due_loop i pre cb s = (None, s0)
      \<and> (case x of Inl e \<Rightarrow> err = Raised e
           | Inr dl \<Rightarrow> cb (i + of_nat (length pre)) dl s0 = (Some err, s'))"
proof (induction xs arbitrary: s i)
  case Nil
  then show ?case by simp
next
  case (Cons x xs)
  show ?case
  proof (cases x)
    case (Inl e)
    with Cons.prems have "err = Raised e" by simp
    then have "x # xs = [] @ x # xs \<and> Due_loop i [] cb s = (None, s)
        \<and> (case x of Inl e \<Rightarrow> err = Raised e
             | Inr dl \<Rightarrow> cb (i + of_nat (length ([] :: (error + Deadline) list))) dl s
                         = (Some err, s'))"
      using Inl by simp
    then show ?thesis by blast
  next
    case (Inr dl)
    obtain r1 s1 where c: "cb i dl s = (r1, s1)" by (cases "cb i dl s")
    show ?thesis
    proof (cases r1)
      case None
      with Cons.prems Inr c have "Due_loop (i + 1) xs cb s1 = (Some err, s')" by simp
      from Cons.IH [OF this] obtain pre x' post s0
        where d: "xs = pre @ x' # post" and p: "Due_loop (i + 1) pre cb s1 = (None, s0)"
          and h: "case x' of Inl e \<Rightarrow> err = Raised e
                  | Inr dl \<Rightarrow> cb (i + 1 + of_nat (length pre)) dl s0 = (Some err, s')"
        by blast
      have eq: "i + 1 + of_nat (length pre) = i + of_nat (length (x # pre))"
        by (simp add: ac_simps)
      have 1: "x # xs = (x # pre) @ x' # post" using d by simp
      have 2: "Due_loop i (x # pre) cb s = (None, s0)"
        using Inr c None p by simp
      have 3: "case x' of Inl e \<Rightarrow> err = Raised e
                  | Inr dl \<Rightarrow> cb (i + of_nat (length (x # pre))) dl s0 = (Some err, s')"
        using h by (simp only: eq)
      from 1 2 3 show ?thesis by blast
    next
      case (Some err')
      with Cons.prems Inr c have "cb i dl s = (Some err, s')" by simp
      then have "x # xs = [] @ x # xs \<and> Due_loop i [] cb s = (None, s)
        \<and> (case x of Inl e \<Rightarrow> err = Raised e
             | Inr dl \<Rightarrow> cb (i + of_nat (length ([] :: (error + Deadline) list))) dl s
                         = (Some err, s'))"
        using Inr by simp
      then show ?thesis by blast
    qed
  qed
qed

lemma queueCb_raised:
  "queueCb num k exp out = (Some (Raised e), out') \<Longrightarrow> set_fails num (Inr exp) e"
  by (cases "IsSet (EarlySectors exp) num"; cases "IsSet (OnTimeSectors exp) num")
    (auto simp: queueCb_def split: option.splits if_splits intro: set_fails.intros)

lemma queue_scan_raised:
  assumes "Array_ForEach q (queueCb num) out = (Some (Raised e), out')"
  shows "\<exists>qpre k z qpost out0. q = qpre @ (k, z) # qpost
           \<and> Array_ForEach qpre (queueCb num) out = (None, out0) \<and> set_fails num z e"
proof -
  from Array_ForEach_Some [OF assms] obtain qpre k z qpost out0
    where d: "q = qpre @ (k, z) # qpost"
      and p: "Array_ForEach qpre (queueCb num) out = (None, out0)"
      and h: "case z of Inl e' \<Rightarrow> Raised e = Raised e'
              | Inr v \<Rightarrow> queueCb num k v out0 = (Some (Raised e), out')"
    by blast
  have "set_fails num z e"
    using h by (cases z) (auto intro: set_fails.intros dest: queueCb_raised)
  with d p show ?thesis by blast
qed

lemma partitionCb_raised:
  assumes "partitionCb num k p out = (Some (Raised e), out')"
  shows "partition_fails num (Inr p) out e"
proof -
  obtain f ef where f: "IsSet (Sectors p) num = (f, ef)"
    by (cases "IsSet (Sectors p) num")
  obtain t et where t: "IsSet (Terminated p) num = (t, et)"
    by (cases "IsSet (Terminated p) num")
  show ?thesis
  proof (cases ef)
    case (Some e')
    with assms f have "e' = e" by (simp add: partitionCb_def)
    with Some f show ?thesis by (auto intro: partition_fails.intros)
  next
    case None
    with assms f have ft: "f" by (auto simp: partitionCb_def split: if_splits)
    show ?thesis
    proof (cases et)
      case (Some e')
      with assms f t None ft have "e' = e" by (simp add: partitionCb_def)
      with Some f t None ft show ?thesis by (auto intro: partition_fails.intros)
    next
      case etn: None
      with assms f t None ft have nt: "\<not> t" by (auto simp: partitionCb_def split: if_splits)
      show ?thesis
      proof (cases "ExpirationsEpochs p")
        case (Inl e')
        with assms f t None ft etn nt have "e' = e" by (simp add: partitionCb_def)
        with Inl f t None ft etn nt show ?thesis by (auto intro: partition_fails.intros)
      next
        case (Inr q)
        with assms f t None ft etn nt
        have "Array_ForEach q (queueCb num) out = (Some (Raised e), out')"
          by (simp add: partitionCb_def)
        from queue_scan_raised [OF this] obtain qpre k' z qpost out0
          where "q = qpre @ (k', z) # qpost"
            and "Array_ForEach qpre (queueCb num) out = (None, out0)"
            and "set_fails num z e"
          by blast
        with Inr f t None ft etn nt show ?thesis
          by (auto intro: partition_fails.set_failed)
      qed
    qed
  qed
qed

lemma deadlineCb_raised:
  assumes "deadlineCb num i dl out = (Some (Raised e), out')"
  shows "deadline_fails num (Inr dl) out e"
proof (cases "Partitions dl")
  case (Inl e')
  with assms have "e' = e" by (simp add: deadlineCb_def)
  with Inl show ?thesis by (auto intro: deadline_fails.intros)
next
  case (Inr ps)
  with assms have "Array_ForEach ps (partitionCb num) out = (Some (Raised e), out')"
    by (simp add: deadlineCb_def)
  from Array_ForEach_Some [OF this] obtain ppre k y ppost out0
    where d: "ps = ppre @ (k, y) # ppost"
      and p: "Array_ForEach ppre (partitionCb num) out = (None, out0)"
      and h: "case y of Inl e' \<Rightarrow> Raised e = Raised e'
              | Inr v \<Rightarrow> partitionCb num k v out0 = (Some (Raised e), out')"
    by blast
  have "partition_fails num y out0 e"
    using h by (cases y) (auto intro: partition_fails.intros dest: partitionCb_raised)
  with Inr d p show ?thesis by (auto intro: deadline_fails.partition_failed)
qed

lemma finish_error: "snd (finish (r, out)) = Some err \<Longrightarrow> r = Some err \<and> err \<noteq> stopErr"
  by (auto simp: finish_def Let_def split: if_splits)

lemma result_raised:
  assumes "snd (GetSectorExpiration s num) = Some err"
  shows "\<exists>e. err = Raised e \<and> raised s num e"
proof (cases "LoadDeadlines s")
  case (Inl e)
  with assms have "err = Raised e" by (simp add: GetSectorExpiration_def)
  with Inl show ?thesis by (auto intro: raised.intros)
next
  case (Inr d)
  obtain r out where t: "Due_loop 0 (Due d) (deadlineCb num) \<lparr>OnTime = 0, Early = 0\<rparr> = (r, out)"
    by (cases "Due_loop 0 (Due d) (deadlineCb num) \<lparr>OnTime = 0, Early = 0\<rparr>")
  with assms Inr have "snd (finish (r, out)) = Some err"
    by (simp add: GetSectorExpiration_def Deadlines_ForEach_def)
  from finish_error [OF this] have r: "r = Some err" and ns: "err \<noteq> stopErr" by simp_all
  from ns obtain e where e: "err = Raised e" by (cases err) auto
  from Due_loop_Some [of 0 "Due d" "deadlineCb num" _ err out] t r
  obtain dpre x dpost out0
    where d: "Due d = dpre @ x # dpost"
      and p: "Due_loop 0 dpre (deadlineCb num) \<lparr>OnTime = 0, Early = 0\<rparr> = (None, out0)"
      and h: "case x of Inl e' \<Rightarrow> err = Raised e'
              | Inr dl \<Rightarrow> deadlineCb num (0 + of_nat (length dpre)) dl out0 = (Some err, out)"
    by blast
  have "deadline_fails num x out0 e"
    using h e by (cases x) (auto intro: deadline_fails.intros dest: deadlineCb_raised)
  with Inr d p have "raised s num e" by (auto intro: raised.deadline_failed)
  with e show ?thesis by blast
qed

section \<open>Facts about filtered views\<close>

lemma incl_Bits: "incl (Some (Bits xs)) filterOut i = ((i \<in> set xs) \<noteq> filterOut, None)"
  by (auto simp: incl_def)

lemma incl_None: "incl None filterOut i = (True, None)"
  by (simp add: incl_def)

lemma incl_view_includes:
  "incl (map_option Bits members) filterOut i = (view_includes members filterOut i, None)"
  by (cases members) (auto simp: incl_def view_includes_def)

lemma filtered_ForEach:
  assumes "\<And>i. snd (inc i) = None"
  shows "Array_ForEach a (\<lambda>i v st. case inc i of
            (include, Some err) \<Rightarrow> (Some (Raised err), st)
          | (include, None) \<Rightarrow> if \<not> include then (None, st) else fn i v st) s
       = Array_ForEach (filter (\<lambda>(k, r). isl r \<or> fst (inc k)) a) fn s"
proof (induction a arbitrary: s)
  case Nil
  show ?case by simp
next
  case (Cons x a)
  obtain k r where x: "x = (k, r)" by (cases x)
  obtain b where b: "inc k = (b, None)" using assms [of k] by (cases "inc k") auto
  show ?case
  proof (cases r)
    case (Inl e)
    then show ?thesis by (simp add: x)
  next
    case (Inr v)
    then show ?thesis using Cons.IH
      by (cases b) (auto simp: x b split: prod.splits option.splits)
  qed
qed

lemma visit_all:
  "list_all (\<lambda>(k, r). \<not> isl r) a \<Longrightarrow> Array_ForEach a visit seen = (None, seen @ map fst a)"
proof (induction a arbitrary: seen)
  case (Cons x a)
  obtain k r where x: "x = (k, r)" by (cases x)
  with Cons.prems obtain v where r: "r = Inr v" by (cases r) auto
  show ?case using Cons by (simp add: x r visit_def)
qed simp

lemma filter_decodable:
  "list_all (\<lambda>(k, r). \<not> isl r) a \<Longrightarrow> list_all (\<lambda>(k, r). \<not> isl r) (filter P a)"
  by (induction a) auto

lemma map_fst_filter:
  "list_all (\<lambda>(k, r). \<not> isl r) a \<Longrightarrow>
   map fst (filter (\<lambda>(k, r). isl r \<or> p k) a) = filter p (map fst a)"
  by (induction a) auto

section \<open>The claims about \<open>GetSectorExpiration\<close>\<close>

text \<open>
  C1. A sector is in one partition of one deadline only: no partition that the traversal
  visits before holds it, which is also what lets the traversal get to the sector's
  partition. When that partition holds the sector in \<open>Sectors\<close> and in \<open>Terminated\<close>, the
  traversal stops there with the sentinel and \<open>GetSectorExpiration\<close> returns \<open>nil, nil\<close>.
  Nothing after that point is visited, and no expiration queue matters: the queues of
  all partitions, the partitions after this one (\<open>ppost\<close>) and the deadlines after this
  one (\<open>dpost\<close>) are arbitrary.
\<close>

theorem terminated_stops_traversal:
  assumes "LoadDeadlines s = Inr d"
    and "Due d = dpre @ Inr dl # dpost"
    and "not_in_deadlines num dpre"
    and "Partitions dl = Inr (ppre @ (k, Inr p) # ppost)"
    and "not_in_partitions num ppre"
    and "IsSet (Sectors p) num = (True, None)"
    and "IsSet (Terminated p) num = (True, None)"
  shows "Deadlines_ForEach d (deadlineCb num) \<lparr>OnTime = 0, Early = 0\<rparr>
           = (Some stopErr, \<lparr>OnTime = 0, Early = 0\<rparr>)
       \<and> GetSectorExpiration s num = (None, None)"
proof -
  let ?out0 = "\<lparr>OnTime = 0, Early = 0\<rparr>"
  have dpre: "Due_loop 0 dpre (deadlineCb num) ?out0 = (None, ?out0)"
    using assms(3) unfolding not_in_deadlines_def by (rule deadlines_skipped)
  have ppre: "Array_ForEach ppre (partitionCb num) ?out0 = (None, ?out0)"
    using assms(5) by (rule partitions_skipped)
  have hit: "partitionCb num k p ?out0 = (Some stopErr, ?out0)"
    using assms(6,7) by (simp add: partitionCb_def)
  have trav: "Deadlines_ForEach d (deadlineCb num) ?out0 = (Some stopErr, ?out0)"
    by (rule reach_partition [OF assms(2) dpre assms(4) ppre hit])
  then show ?thesis
    by (simp add: GetSectorExpiration_def assms(1) finish_stop)
qed

text \<open>
  Scenario 3: sector 9 is terminated in partition 1 of deadline 0. The record the
  partition still holds for it, the undecodable partition 2 and the unreadable deadline 1
  are never looked at.
\<close>

theorem terminated_stops_traversal_witness:
  "GetSectorExpiration scenario3 9 = (None, None)
   \<and> Deadlines_ForEach \<lparr>Due = [Inr (deadline_of
          [(0, Inr (partition_of [1] [] [(900, Inr (expiration_set [1] []))])),
           (1, Inr terminated_partition),
           (2, Inl (Err ''partition 2 undecodable''))]),
        Inl (Err ''deadline 1 unreadable'')]\<rparr> (deadlineCb 9) \<lparr>OnTime = 0, Early = 0\<rparr>
       = (Some stopErr, \<lparr>OnTime = 0, Early = 0\<rparr>)"
proof -
  let ?dl = "deadline_of
          [(0, Inr (partition_of [1] [] [(900, Inr (expiration_set [1] []))])),
           (1, Inr terminated_partition),
           (2, Inl (Err ''partition 2 undecodable''))]"
  let ?d = "\<lparr>Due = [Inr ?dl, Inl (Err ''deadline 1 unreadable'')]\<rparr>"
  have a: "LoadDeadlines scenario3 = Inr ?d"
    by (simp add: scenario3_def state_of_def)
  have b: "Due ?d = [] @ Inr ?dl # [Inl (Err ''deadline 1 unreadable'')]"
    by simp
  have c: "not_in_deadlines 9 []"
    by (simp add: not_in_deadlines_def)
  have d: "Partitions ?dl =
      Inr ([(0, Inr (partition_of [1] [] [(900, Inr (expiration_set [1] []))]))]
           @ (1, Inr terminated_partition) # [(2, Inl (Err ''partition 2 undecodable''))])"
    by (simp add: deadline_of_def)
  have e: "not_in_partitions 9
             [(0, Inr (partition_of [1] [] [(900, Inr (expiration_set [1] []))]))]"
    by (simp add: not_in_partitions_def partition_of_def)
  have f: "IsSet (Sectors terminated_partition) 9 = (True, None)"
    by (simp add: terminated_partition_def partition_of_def)
  have g: "IsSet (Terminated terminated_partition) 9 = (True, None)"
    by (simp add: terminated_partition_def partition_of_def)
  from terminated_stops_traversal [OF a b c d e f g] show ?thesis
    by simp
qed

text \<open>
  C3, as the code has it. When the sector is in \<open>EarlySectors\<close> of an expiration set, the
  callback records the set's epoch as \<open>Early\<close> and returns \<open>nil\<close> at once: the scan goes
  on with the next set, and \<open>OnTimeSectors\<close> of this set is not consulted (the result
  does not depend on it).
\<close>

theorem early_record_continues:
  assumes "IsSet (EarlySectors exp) num = (True, None)"
  shows "queueCb num epoch exp out = (None, out\<lparr>Early := epoch\<rparr>)
       \<and> Array_ForEach ((epoch, Inr exp) # rest) (queueCb num) out
           = Array_ForEach rest (queueCb num) (out\<lparr>Early := epoch\<rparr>)"
  using assms by (simp add: queueCb_def)

text \<open>
  Sector 7 is early, and on time too, in the set at epoch 800, and on time in the set at
  epoch 1200: the on-time epoch is found in the later set.
\<close>

theorem early_record_continues_witness:
  "queueCb 7 800 both_set \<lparr>OnTime = 0, Early = 0\<rparr> = (None, \<lparr>OnTime = 0, Early = 800\<rparr>)
   \<and> Array_ForEach [(800, Inr both_set), (1200, Inr (expiration_set [7] []))] (queueCb 7)
         \<lparr>OnTime = 0, Early = 0\<rparr>
       = (Some stopErr, \<lparr>OnTime = 1200, Early = 800\<rparr>)"
proof -
  have h: "IsSet (EarlySectors both_set) 7 = (True, None)"
    by (simp add: both_set_def expiration_set_def)
  have r: "Array_ForEach [(1200, Inr (expiration_set [7] []))] (queueCb 7)
             \<lparr>OnTime = 0, Early = 800\<rparr> = (Some stopErr, \<lparr>OnTime = 1200, Early = 800\<rparr>)"
    by (simp add: expiration_set_def queueCb_def)
  from early_record_continues [OF h, of 800 "\<lparr>OnTime = 0, Early = 0\<rparr>"
      "[(1200, Inr (expiration_set [7] []))]"] r
  show ?thesis by simp
qed

text \<open>
  C3 as stated fails: for a sector in both \<open>EarlySectors\<close> and \<open>OnTimeSectors\<close> of the one
  set at epoch 800, only \<open>Early\<close> becomes 800; \<open>OnTime\<close> stays 0.
\<close>

theorem early_then_onTime_same_set_counterexample:
  "IsSet (EarlySectors both_set) 7 = (True, None)
   \<and> IsSet (OnTimeSectors both_set) 7 = (True, None)
   \<and> GetSectorExpiration both_states 7 = (Some \<lparr>OnTime = 0, Early = 800\<rparr>, None)"
  by (simp add: examples traversal)



text \<open>
  C6. Whenever a collaborator raises an error during the query (\<open>raised\<close>: the deadlines,
  a deadline, a partitions array, a partition, one of the bit fields \<open>Sectors\<close>,
  \<open>Terminated\<close>, \<open>EarlySectors\<close> and \<open>OnTimeSectors\<close>, an expiration queue or an
  expiration set cannot be read, everything before it having been passed),
  \<open>GetSectorExpiration\<close> returns that error as it is, with a \<open>nil\<close> result, whatever
  epochs were recorded by then. Conversely every error it returns is one that a
  collaborator raised. The sentinel is never returned: a traversal that ends with it
  yields no error. And whenever an error is returned the result is \<open>nil\<close>.
\<close>

theorem errors_surface_unchanged:
  "(raised s num e \<longrightarrow> GetSectorExpiration s num = (None, Some (Raised e)))
   \<and> (snd (GetSectorExpiration s num) = Some err \<longrightarrow> (\<exists>e'. err = Raised e' \<and> raised s num e'))
   \<and> (LoadDeadlines s = Inr d
        \<and> Deadlines_ForEach d (deadlineCb num) \<lparr>OnTime = 0, Early = 0\<rparr> = (Some (Raised e), out)
      \<longrightarrow> GetSectorExpiration s num = (None, Some (Raised e)))
   \<and> (LoadDeadlines s = Inr d
        \<and> Deadlines_ForEach d (deadlineCb num) \<lparr>OnTime = 0, Early = 0\<rparr> = (Some stopErr, out)
      \<longrightarrow> snd (GetSectorExpiration s num) = None)
   \<and> snd (GetSectorExpiration s num) \<noteq> Some stopErr
   \<and> (snd (GetSectorExpiration s num) \<noteq> None \<longrightarrow> fst (GetSectorExpiration s num) = None)"
proof -
  have 1: "raised s num e \<longrightarrow> GetSectorExpiration s num = (None, Some (Raised e))"
    by (simp add: raised_result)
  have 2: "snd (GetSectorExpiration s num) = Some err
             \<longrightarrow> (\<exists>e'. err = Raised e' \<and> raised s num e')"
    by (simp add: result_raised)
  have 3: "LoadDeadlines s = Inr d
        \<and> Deadlines_ForEach d (deadlineCb num) \<lparr>OnTime = 0, Early = 0\<rparr> = (Some (Raised e), out)
      \<longrightarrow> GetSectorExpiration s num = (None, Some (Raised e))"
    by (simp add: GetSectorExpiration_def finish_raised)
  have 4: "LoadDeadlines s = Inr d
        \<and> Deadlines_ForEach d (deadlineCb num) \<lparr>OnTime = 0, Early = 0\<rparr> = (Some stopErr, out)
      \<longrightarrow> snd (GetSectorExpiration s num) = None"
    by (simp add: GetSectorExpiration_def finish_stop)
  have 5: "snd (GetSectorExpiration s num) \<noteq> Some stopErr"
    by (cases "LoadDeadlines s") (simp_all add: GetSectorExpiration_def finish_never_stop)
  have 6: "snd (GetSectorExpiration s num) \<noteq> None \<longrightarrow> fst (GetSectorExpiration s num) = None"
    by (cases "LoadDeadlines s") (simp_all add: GetSectorExpiration_def finish_error_nil)
  from 1 2 3 4 5 6 show ?thesis by blast
qed

text \<open>
  In \<open>broken_bitfield\<close> the scan of partition 1 records the early epoch 800 of sector 7
  and then meets an expiration set whose \<open>OnTimeSectors\<close> cannot be read: the bit field's
  error is the result, the early epoch is dropped.
\<close>

theorem errors_surface_unchanged_witness:
  "raised broken_bitfield 7 (Err ''bit field unreadable'')
   \<and> Array_ForEach [(800, Inr (expiration_set [] [7]))] (queueCb 7) \<lparr>OnTime = 0, Early = 0\<rparr>
       = (None, \<lparr>OnTime = 0, Early = 800\<rparr>)
   \<and> GetSectorExpiration broken_bitfield 7 = (None, Some (Raised (Err ''bit field unreadable'')))"
proof -
  let ?e = "Err ''bit field unreadable''"
  let ?out0 = "\<lparr>OnTime = 0, Early = 0\<rparr>"
  let ?set = "\<lparr>OnTimeSectors = Undecodable ?e, EarlySectors = Bits []\<rparr>"
  let ?dl = "deadline_of [(0, Inr (partition_of [1] [] [])), (1, Inr unreadable_onTime)]"
  have scan: "Array_ForEach [(800, Inr (expiration_set [] [7]))] (queueCb 7) ?out0
                = (None, \<lparr>OnTime = 0, Early = 800\<rparr>)"
    by (simp add: expiration_set_def queueCb_def)
  have st: "set_fails 7 (Inr ?set) ?e"
    by (rule set_fails.onTime_unreadable [where b = False]) simp_all
  have pt: "partition_fails 7 (Inr unreadable_onTime) ?out0 ?e"
  proof (rule partition_fails.set_failed [where qpre = "[(800, Inr (expiration_set [] [7]))]"
        and k = 1200 and z = "Inr ?set" and qpost = "[]"
        and out' = "\<lparr>OnTime = 0, Early = 800\<rparr>"])
    show "IsSet (Sectors unreadable_onTime) 7 = (True, None)"
      by (simp add: unreadable_onTime_def partition_of_def)
    show "IsSet (Terminated unreadable_onTime) 7 = (False, None)"
      by (simp add: unreadable_onTime_def partition_of_def)
    show "ExpirationsEpochs unreadable_onTime
            = Inr ([(800, Inr (expiration_set [] [7]))] @ (1200, Inr ?set) # [])"
      by (simp add: unreadable_onTime_def partition_of_def)
    show "Array_ForEach [(800, Inr (expiration_set [] [7]))] (queueCb 7) ?out0
            = (None, \<lparr>OnTime = 0, Early = 800\<rparr>)"
      by (rule scan)
    show "set_fails 7 (Inr ?set) ?e"
      by (rule st)
  qed
  have dl: "deadline_fails 7 (Inr ?dl) ?out0 ?e"
  proof (rule deadline_fails.partition_failed [where ppre = "[(0, Inr (partition_of [1] [] []))]"
        and k = 1 and y = "Inr unreadable_onTime" and ppost = "[]" and out' = ?out0])
    show "Partitions ?dl
            = Inr ([(0, Inr (partition_of [1] [] []))] @ (1, Inr unreadable_onTime) # [])"
      by (simp add: deadline_of_def)
    show "Array_ForEach [(0, Inr (partition_of [1] [] []))] (partitionCb 7) ?out0 = (None, ?out0)"
      by (simp add: partition_of_def partitionCb_def)
    show "partition_fails 7 (Inr unreadable_onTime) ?out0 ?e"
      by (rule pt)
  qed
  have r: "raised broken_bitfield 7 ?e"
  proof (rule raised.deadline_failed [where d = "\<lparr>Due = [Inr ?dl]\<rparr>" and dpre = "[]"
        and x = "Inr ?dl" and dpost = "[]" and out = ?out0])
    show "LoadDeadlines broken_bitfield = Inr \<lparr>Due = [Inr ?dl]\<rparr>"
      by (simp add: broken_bitfield_def state_of_def)
    show "Due \<lparr>Due = [Inr ?dl]\<rparr> = [] @ Inr ?dl # []"
      by simp
    show "Due_loop 0 [] (deadlineCb 7) ?out0 = (None, ?out0)"
      by simp
    show "deadline_fails 7 (Inr ?dl) ?out0 ?e"
      by (rule dl)
  qed
  from errors_surface_unchanged [where s = broken_bitfield and num = 7 and e = ?e] r scan
  show ?thesis by blast
qed

text \<open>
  C9. When the records of a sector are all keyed at epoch 0, \<open>GetSectorExpiration\<close>
  returns a \<open>nil\<close> result for it, as for a sector with no record: \<open>nil, nil\<close>, unless a
  collaborator's error is returned. The records of other sectors are at any epoch. More
  generally, whenever the traversal ends without an error of a collaborator and with
  both recorded epochs 0, the result is \<open>nil, nil\<close>.
\<close>

theorem epoch_zero_collision:
  "(records_at_zero s num \<longrightarrow>
      GetSectorExpiration s num = (None, None)
      \<or> (\<exists>e. GetSectorExpiration s num = (None, Some (Raised e))))
   \<and> (LoadDeadlines s = Inr d
        \<and> Deadlines_ForEach d (deadlineCb num) \<lparr>OnTime = 0, Early = 0\<rparr> = (err, out)
        \<and> (err = None \<or> err = Some stopErr) \<and> Early out = 0 \<and> OnTime out = 0
      \<longrightarrow> GetSectorExpiration s num = (None, None))"
proof -
  have 1: "GetSectorExpiration s num = (None, None)
      \<or> (\<exists>e. GetSectorExpiration s num = (None, Some (Raised e)))"
    if z: "records_at_zero s num"
  proof (cases "LoadDeadlines s")
    case (Inl e)
    then show ?thesis by (simp add: GetSectorExpiration_def)
  next
    case (Inr d')
    obtain r out' where t:
      "Deadlines_ForEach d' (deadlineCb num) \<lparr>OnTime = 0, Early = 0\<rparr> = (r, out')"
      by (cases "Deadlines_ForEach d' (deadlineCb num) \<lparr>OnTime = 0, Early = 0\<rparr>")
    have z0: "zeroed \<lparr>OnTime = 0, Early = 0\<rparr>" by (simp add: zeroed_def)
    have "zeroed out'"
      using z t Due_loop_zero [OF _ z0, of num "Due d'" 0 r out']
      by (simp add: records_at_zero_def Inr Deadlines_ForEach_def)
    from finish_zeroed [OF this, of r] show ?thesis
      by (simp add: GetSectorExpiration_def Inr t)
  qed
  have 2: "LoadDeadlines s = Inr d
        \<and> Deadlines_ForEach d (deadlineCb num) \<lparr>OnTime = 0, Early = 0\<rparr> = (err, out)
        \<and> (err = None \<or> err = Some stopErr) \<and> Early out = 0 \<and> OnTime out = 0
      \<longrightarrow> GetSectorExpiration s num = (None, None)"
    by (auto simp: GetSectorExpiration_def finish_def)
  from 1 2 show ?thesis by blast
qed

text \<open>
  In \<open>epoch_zero\<close> the traversal finds the on-time record of sector 5, at epoch 0, and
  stops; the result is that of sector 42, which has no record. Sector 6, in the same
  queue with its record at epoch 1000, gets its expiration.
\<close>

theorem epoch_zero_collision_witness:
  "records_at_zero epoch_zero 5
   \<and> partitionCb 5 0 zero_partition \<lparr>OnTime = 0, Early = 0\<rparr>
       = (Some stopErr, \<lparr>OnTime = 0, Early = 0\<rparr>)
   \<and> GetSectorExpiration epoch_zero 5 = (None, None)
   \<and> GetSectorExpiration epoch_zero 42 = (None, None)
   \<and> GetSectorExpiration epoch_zero 6 = (Some \<lparr>OnTime = 1000, Early = 0\<rparr>, None)"
proof -
  have z: "records_at_zero epoch_zero 5"
    by (simp add: records_at_zero_def partitions_at_zero_def queue_at_zero_def set_holds_def
        examples)
  have p: "partitionCb 5 0 zero_partition \<lparr>OnTime = 0, Early = 0\<rparr>
         = (Some stopErr, \<lparr>OnTime = 0, Early = 0\<rparr>)"
    by (simp add: examples traversal)
  have n: "\<not> (\<exists>e. GetSectorExpiration epoch_zero 5 = (None, Some (Raised e)))"
    by (simp add: examples traversal)
  have o: "GetSectorExpiration epoch_zero 42 = (None, None)"
    "GetSectorExpiration epoch_zero 6 = (Some \<lparr>OnTime = 1000, Early = 0\<rparr>, None)"
    by (simp_all add: examples traversal)
  from epoch_zero_collision [of epoch_zero 5] n z p o show ?thesis
    by blast
qed

section \<open>The claims about lookups and views\<close>

text \<open>
  C2 describes \<open>DeadlinesChanged\<close> as its name and its comment do: \<open>true\<close> stands for
  "changed". The code returns the outcome of \<open>Equals\<close> for two version 0 states: \<open>true\<close>
  for a state compared with itself, \<open>false\<close> for two states whose deadlines differ.
\<close>

theorem DeadlinesChanged_same_version:
  "DeadlinesChanged scenario1 (State0 scenario1) = True
   \<and> DeadlinesChanged scenario1 (State0 (scenario1\<lparr>st_Deadlines := Cid ''deadlines-b''\<rparr>)) = False
   \<and> DeadlinesChanged s (State0 other0) = (st_Deadlines s = st_Deadlines other0)
   \<and> DeadlinesChanged s (StateV v) = True"
  by (simp add: DeadlinesChanged_def Equals_def scenario1_def state_of_def)

text \<open>
  C7. A sector number that is not a key of the sectors array gets \<open>nil, nil\<close> from
  \<open>GetSector\<close>, and one that is not a key of the precommitted sectors gets \<open>nil, nil\<close>
  from \<open>GetPrecommittedSector\<close>: no value and no error (and no panic).
\<close>

theorem absence_is_not_an_error:
  "(st_Sectors s = Inr a \<and> num \<notin> fst ` set a \<longrightarrow> GetSector s num = Some (None, None))
   \<and> (PreCommittedSectors s = Inr m \<and> num \<notin> fst ` set m \<longrightarrow>
        GetPrecommittedSector s num = Some (None, None))"
  by (auto simp: GetSector_def State_GetSector_def GetPrecommittedSector_def
      State_GetPrecommittedSector_def Array_Get_absent)

theorem absence_is_not_an_error_witness:
  "GetSector scenario4 42 = Some (None, None)
   \<and> GetPrecommittedSector scenario4 42 = Some (None, None)
   \<and> GetSector scenario4 5 = Some (Some (info_of 5), None)"
proof -
  let ?a = "[(1, Inr (info_of 1)), (2, Inr (info_of 2)), (3, Inr (info_of 3)),
             (5, Inr (info_of 5))] :: SectorOnChainInfo Array"
  let ?m = "[(6, Inr \<lparr>PreCommitSector = 6, PreCommitEpoch = 20\<rparr>)]
             :: SectorPreCommitOnChainInfo Array"
  have a: "st_Sectors scenario4 = Inr ?a \<and> 42 \<notin> fst ` set ?a"
    by (simp add: scenario4_def state_of_def)
  have m: "PreCommittedSectors scenario4 = Inr ?m \<and> 42 \<notin> fst ` set ?m"
    by (simp add: scenario4_def state_of_def)
  have f: "GetSector scenario4 5 = Some (Some (info_of 5), None)"
    by (simp add: scenario4_def state_of_def GetSector_def State_GetSector_def
        fromV0SectorOnChainInfo_def)
  from absence_is_not_an_error [of scenario4 ?a 42 ?m] a m f show ?thesis
    by blast
qed

text \<open>
  C8. For a sector number that is not in the allocated sectors, in no partition's
  \<open>Sectors\<close> (of a state whose deadlines and partitions can all be read) and not a key of
  the sectors array, \<open>GetSector\<close> returns \<open>nil, nil\<close>, \<open>IsAllocated\<close> returns
  \<open>false, nil\<close> and \<open>GetSectorExpiration\<close> returns \<open>nil, nil\<close>.
\<close>

theorem never_allocated:
  assumes "AllocatedSectors s = Inr bf" and "IsSet bf num = (False, None)"
    and "in_no_partition s num"
    and "st_Sectors s = Inr a" and "num \<notin> fst ` set a"
  shows "GetSector s num = Some (None, None)
       \<and> IsAllocated s num = (False, None)
       \<and> GetSectorExpiration s num = (None, None)"
proof -
  have 1: "GetSector s num = Some (None, None)"
    using assms(4) Array_Get_absent [OF assms(5)]
    by (simp add: GetSector_def State_GetSector_def)
  have 2: "IsAllocated s num = (False, None)"
    using assms(1,2) by (simp add: IsAllocated_def)
  from assms(3) obtain d where d: "LoadDeadlines s = Inr d"
    and all: "list_all (\<lambda>x. case x of Inl e \<Rightarrow> False
                     | Inr dl \<Rightarrow> (case Partitions dl of Inl e \<Rightarrow> False
                                 | Inr ps \<Rightarrow> not_in_partitions num ps)) (Due d)"
    by (auto simp: in_no_partition_def split: sum.splits)
  have 3: "GetSectorExpiration s num = (None, None)"
    using deadlines_skipped [OF all, of 0 "\<lparr>OnTime = 0, Early = 0\<rparr>"]
    by (simp add: GetSectorExpiration_def d Deadlines_ForEach_def finish_nil)
  from 1 2 3 show ?thesis by simp
qed

text \<open>Scenario 4: sector 42 in \<open>scenario4\<close>, whose sectors are 1, 2, 3 and 5.\<close>

theorem never_allocated_witness:
  "in_no_partition scenario4 42
   \<and> GetSector scenario4 42 = Some (None, None)
   \<and> IsAllocated scenario4 42 = (False, None)
   \<and> GetSectorExpiration scenario4 42 = (None, None)"
proof -
  let ?a = "[(1, Inr (info_of 1)), (2, Inr (info_of 2)), (3, Inr (info_of 3)),
             (5, Inr (info_of 5))] :: SectorOnChainInfo Array"
  have b: "AllocatedSectors scenario4 = Inr (Bits [1, 2, 3, 5, 6])"
    by (simp add: scenario4_def state_of_def)
  have i: "IsSet (Bits [1, 2, 3, 5, 6]) 42 = (False, None)"
    by simp
  have p: "in_no_partition scenario4 42"
    by (simp add: in_no_partition_def not_in_partitions_def examples)
  have a: "st_Sectors scenario4 = Inr ?a"
    by (simp add: scenario4_def state_of_def)
  have n: "42 \<notin> fst ` set ?a"
    by simp
  from never_allocated [OF b i p a n] p show ?thesis
    by simp
qed

text \<open>
  C5. Let the filter be absent, or a readable bit field with members \<open>xs\<close>, and let
  \<open>p i\<close> be: true with no filter; \<open>i \<in> xs\<close> with the polarity flag \<open>filterOut\<close> off;
  \<open>i \<notin> xs\<close> with the flag on (\<open>view_includes\<close>). Then \<open>incl\<close> computes \<open>p\<close> without an
  error, and \<open>LoadSectorsFromSet\<close> returns a view whose \<open>Get\<close> is the array's \<open>Get\<close>
  where \<open>p\<close> holds and "not found", without an error, elsewhere; whose \<open>ForEach\<close>
  behaves, for every callback, as the array's \<open>ForEach\<close> on the entries with \<open>p\<close> (an
  entry that cannot be decoded still fails the walk); which on an array whose entries
  all decode visits exactly the keys with \<open>p\<close>, in the order of the array; and that
  order is ascending when the array's is.
\<close>

theorem view_round_trip:
  assumes arr: "st_Sectors s = Inr a"
  shows "(\<forall>i. incl (map_option Bits members) filterOut i
                = (view_includes members filterOut i, None))
       \<and> (\<exists>view. LoadSectorsFromSet s (map_option Bits members) filterOut = (Some view, None)
            \<and> (\<forall>i. GetFunc view i =
                  (if view_includes members filterOut i then Array_Get a i
                   else (None, False, None)))
            \<and> (\<forall>fn st. ForEachFunc view fn (st :: 's) =
                  Array_ForEach [(k, r) \<leftarrow> a. isl r \<or> view_includes members filterOut k] fn st))
       \<and> (list_all (\<lambda>(k, r). \<not> isl r) a \<longrightarrow>
            (\<exists>view. LoadSectorsFromSet s (map_option Bits members) filterOut = (Some view, None)
               \<and> ForEachFunc view visit [] =
                   (None, [k \<leftarrow> map fst a. view_includes members filterOut k])))
       \<and> (sorted_wrt (<) (map fst a) \<longrightarrow>
            sorted_wrt (<) [k \<leftarrow> map fst a. view_includes members filterOut k])"
proof -
  let ?f = "map_option Bits members"
  let ?p = "view_includes members filterOut"
  have inc: "\<And>i. incl ?f filterOut i = (?p i, None)"
    by (rule incl_view_includes)
  have fe: "\<And>fn st. Array_ForEach a (\<lambda>i v st. case incl ?f filterOut i of
            (include, Some err) \<Rightarrow> (Some (Raised err), st)
          | (include, None) \<Rightarrow> if \<not> include then (None, st) else fn i v st) st
       = Array_ForEach [(k, r) \<leftarrow> a. isl r \<or> ?p k] fn st"
    using filtered_ForEach [of "incl ?f filterOut" a] by (simp add: inc)
  have get: "(case incl ?f filterOut i of
                      (b, Some err) \<Rightarrow> (None, False, Some err)
                    | (b, None) \<Rightarrow> if \<not> b then (None, False, None) else Array_Get a i)
        = (if ?p i then Array_Get a i else (None, False, None))"
    for i
    by (simp add: inc)
  have 1: "\<exists>view. LoadSectorsFromSet s ?f filterOut = (Some view, None)
            \<and> (\<forall>i. GetFunc view i = (if ?p i then Array_Get a i else (None, False, None)))
            \<and> (\<forall>fn st. ForEachFunc view fn (st :: 's) =
                  Array_ForEach [(k, r) \<leftarrow> a. isl r \<or> ?p k] fn st)"
    by (simp add: LoadSectorsFromSet_def arr get fe)
  have 2: "list_all (\<lambda>(k, r). \<not> isl r) a \<longrightarrow>
            (\<exists>view. LoadSectorsFromSet s ?f filterOut = (Some view, None)
               \<and> ForEachFunc view visit [] = (None, [k \<leftarrow> map fst a. ?p k]))"
  proof
    assume dec: "list_all (\<lambda>(k, r). \<not> isl r) a"
    have "Array_ForEach [(k, r) \<leftarrow> a. isl r \<or> ?p k] visit [] = (None, [k \<leftarrow> map fst a. ?p k])"
      using visit_all [OF filter_decodable [OF dec], of _ "[]"] map_fst_filter [OF dec]
      by simp
    then show "\<exists>view. LoadSectorsFromSet s ?f filterOut = (Some view, None)
               \<and> ForEachFunc view visit [] = (None, [k \<leftarrow> map fst a. ?p k])"
      by (simp add: LoadSectorsFromSet_def arr fe)
  qed
  have 3: "sorted_wrt (<) (map fst a) \<longrightarrow> sorted_wrt (<) [k \<leftarrow> map fst a. ?p k]"
    by (simp add: sorted_wrt_filter)
  from inc 1 2 3 show ?thesis by blast
qed

text \<open>
  The sectors 1, 2, 3 and 5 of \<open>scenario4\<close> seen through the filter \<open>{2, 3, 8}\<close>. With
  the flag off, sectors 2 and 3 are visited and sector 1, which the array holds, is not
  found. With the flag on, sectors 1 and 5 are visited and sector 2 is not found.
\<close>

theorem view_round_trip_witness:
  "(\<exists>view. LoadSectorsFromSet scenario4 (Some (Bits [2, 3, 8])) False = (Some view, None)
     \<and> GetFunc view 1 = (None, False, None)
     \<and> GetFunc view 2 = (Some (info_of 2), True, None)
     \<and> GetFunc view 8 = (None, False, None)
     \<and> ForEachFunc view visit [] = (None, [2, 3]))
   \<and> (\<exists>view. LoadSectorsFromSet scenario4 (Some (Bits [2, 3, 8])) True = (Some view, None)
     \<and> GetFunc view 1 = (Some (info_of 1), True, None)
     \<and> GetFunc view 2 = (None, False, None)
     \<and> GetFunc view 8 = (None, False, None)
     \<and> ForEachFunc view visit [] = (None, [1, 5]))"
proof -
  let ?a = "[(1, Inr (info_of 1)), (2, Inr (info_of 2)), (3, Inr (info_of 3)),
             (5, Inr (info_of 5))] :: SectorOnChainInfo Array"
  have a: "st_Sectors scenario4 = Inr ?a"
    by (simp add: scenario4_def state_of_def)
  from view_round_trip [OF a, of "Some [2, 3, 8]" False, where ?'s = "int64 list"]
  obtain view :: "(SectorOnChainInfo, int64 list) ProxyArray"
    where v: "LoadSectorsFromSet scenario4 (Some (Bits [2, 3, 8])) False = (Some view, None)"
      and g: "\<And>i. GetFunc view i =
                  (if view_includes (Some [2, 3, 8]) False i then Array_Get ?a i
                   else (None, False, None))"
      and e: "\<And>fn st. ForEachFunc view fn st =
                  Array_ForEach [(k, r) \<leftarrow> ?a. isl r \<or> view_includes (Some [2, 3, 8]) False k]
                    fn st"
    by auto
  have "GetFunc view 1 = (None, False, None)"
    and "GetFunc view 2 = (Some (info_of 2), True, None)"
    and "GetFunc view 8 = (None, False, None)"
    and "ForEachFunc view visit [] = (None, [2, 3])"
    by (simp_all add: g e view_includes_def visit_def)
  with v have off: "\<exists>view. LoadSectorsFromSet scenario4 (Some (Bits [2, 3, 8])) False
       = (Some view, None)
     \<and> GetFunc view 1 = (None, False, None)
     \<and> GetFunc view 2 = (Some (info_of 2), True, None)
     \<and> GetFunc view 8 = (None, False, None)
     \<and> ForEachFunc view visit [] = (None, [2, 3])"
    by blast
  from view_round_trip [OF a, of "Some [2, 3, 8]" True, where ?'s = "int64 list"]
  obtain view' :: "(SectorOnChainInfo, int64 list) ProxyArray"
    where v': "LoadSectorsFromSet scenario4 (Some (Bits [2, 3, 8])) True = (Some view', None)"
      and g': "\<And>i. GetFunc view' i =
                  (if view_includes (Some [2, 3, 8]) True i then Array_Get ?a i
                   else (None, False, None))"
      and e': "\<And>fn st. ForEachFunc view' fn st =
                  Array_ForEach [(k, r) \<leftarrow> ?a. isl r \<or> view_includes (Some [2, 3, 8]) True k]
                    fn st"
    by auto
  have "GetFunc view' 1 = (Some (info_of 1), True, None)"
    and "GetFunc view' 2 = (None, False, None)"
    and "GetFunc view' 8 = (None, False, None)"
    and "ForEachFunc view' visit [] = (None, [1, 5])"
    by (simp_all add: g' e' view_includes_def visit_def)
  with v' have on: "\<exists>view. LoadSectorsFromSet scenario4 (Some (Bits [2, 3, 8])) True
       = (Some view, None)
     \<and> GetFunc view 1 = (Some (info_of 1), True, None)
     \<and> GetFunc view 2 = (None, False, None)
     \<and> GetFunc view 8 = (None, False, None)
     \<and> ForEachFunc view visit [] = (None, [1, 5])"
    by blast
  from off on show ?thesis by blast
qed

text \<open>
  C10. With a \<open>nil\<close> filter \<open>incl\<close> accepts every index, whatever \<open>filterOut\<close> is, and
  the view that \<open>LoadSectorsFromSet\<close> returns is the sectors array itself: its \<open>Get\<close> and
  its \<open>ForEach\<close> are the array's.
\<close>

theorem nil_filter_identity:
  "incl None filterOut i = (True, None)
   \<and> LoadSectorsFromSet s None filterOut =
       (case st_Sectors s of
          Inl err \<Rightarrow> (None, Some err)
        | Inr a \<Rightarrow> (Some \<lparr>GetFunc = Array_Get a, ForEachFunc = Array_ForEach a\<rparr>, None))"
  by (simp add: LoadSectorsFromSet_def incl_None split: sum.splits)

theorem nil_filter_identity_witness:
  "\<exists>view. LoadSectorsFromSet scenario4 None True = (Some view, None)
     \<and> GetFunc view 5 = (Some (info_of 5), True, None)
     \<and> ForEachFunc view visit [] = (None, [1, 2, 3, 5])"
  using nil_filter_identity [of True 5 scenario4, where ?'a = "int64 list"]
  by (simp add: scenario4_def state_of_def visit_def)

end
